theory Spec2Isabelle
  imports Complex_Main "HOL-Library.AList"
begin

section \<open>Values, errors and the array store\<close>

text \<open>
  The skewness transformers of \<^verbatim>\<open>skoot/preprocessing/skewness.py\<close> work on numpy
  arrays. A float64 value is idealised as a \<open>real\<close>: every value is finite, \<^verbatim>\<open>**\<close> on
  a positive base is \<open>powr\<close>, \<^verbatim>\<open>np.log\<close> on a positive argument is \<open>ln\<close>. The one
  non-number the code produces on purpose, \<^verbatim>\<open>np.nan\<close>, is a constructor of its own.

  An array has a dtype, which it keeps for its lifetime: float64 or int64 (a numeric
  column of a table, or a list of Python numbers, is one or the other). Arithmetic
  with a float operand reads an int64 entry as the float of the same value; a float
  written into an int64 array is cast, which drops its fractional part.

  numpy arrays are mutable objects, and the code under study assigns into them
  (\<^verbatim>\<open>y[mask] = ...\<close>, \<^verbatim>\<open>data += shift\<close>). An array is therefore an address into a
  store; the store is the list of all arrays allocated so far, and a fresh array gets
  the next free index.
\<close>

datatype ndarray = Float64 "real list" | Int64 "int list"

type_synonym addr = nat
type_synonym heap = "ndarray list"

text \<open>The values of an array, as the floats that arithmetic with a float operand sees.\<close>

fun vals :: "ndarray \<Rightarrow> real list" where
  "vals (Float64 xs) = xs"
| "vals (Int64 ks) = map real_of_int ks"

text \<open>The cast of a float to int64: truncation toward zero.\<close>

definition cast_int :: "real \<Rightarrow> int" where
  "cast_int v = (if 0 \<le> v then \<lfloor>v\<rfloor> else \<lceil>v\<rceil>)"

datatype error = TypeError | ValueError | KeyError | AttributeError | NotFittedError

datatype npfloat = NaN | Num real

definition ZERO :: real where
  "ZERO = 1 / 10 ^ 16"

definition alloc :: "heap \<Rightarrow> ndarray \<Rightarrow> addr \<times> heap" where
  "alloc h arr = (length h, h @ [arr])"

text \<open>
  An array-like argument is either an array that already lives in the store (a pandas
  series counts as the array it is a view of) or a plain Python sequence: \<open>PyList\<close> is
  a sequence of numbers with a float among them, or an empty one, \<open>PyIntList\<close> a
  sequence of Python ints. \<^verbatim>\<open>np.asarray\<close> returns an array argument itself (no copy,
  same dtype) and builds a fresh array from a sequence: float64, or int64 when the
  sequence holds ints only.
\<close>

datatype array_like = NdArray addr | PyList "real list" | PyIntList "int list"

fun np_asarray :: "heap \<Rightarrow> array_like \<Rightarrow> addr \<times> heap" where
  "np_asarray h (NdArray a) = (a, h)"
| "np_asarray h (PyList xs) = alloc h (Float64 xs)"
| "np_asarray h (PyIntList ks) = alloc h (if ks = [] then Float64 [] else Int64 ks)"

section \<open>Boolean masks\<close>

text \<open>\<^verbatim>\<open>y[mask]\<close>: the values of \<open>y\<close> at the positions where the mask is true.\<close>

fun select :: "'a list \<Rightarrow> bool list \<Rightarrow> 'a list" where
  "select (x # xs) (m # ms) = (if m then x # select xs ms else select xs ms)"
| "select xs ms = []"

text \<open>
  \<^verbatim>\<open>y[mask] = vs\<close>: the values \<open>vs\<close> are written, in order, to the positions where the
  mask is true; the other positions keep their value.
\<close>

fun masked_set :: "'a list \<Rightarrow> bool list \<Rightarrow> 'a list \<Rightarrow> 'a list" where
  "masked_set (x # xs) (m # ms) vs =
     (if m then (case vs of [] \<Rightarrow> x # masked_set xs ms [] | v # vs' \<Rightarrow> v # masked_set xs ms vs')
      else x # masked_set xs ms vs)"
| "masked_set xs ms vs = xs"

text \<open>
  The two on an array of the store. The values read are operands of float arithmetic;
  the values written are floats, cast to the dtype of the array they are written into.
\<close>

definition np_getmask :: "ndarray \<Rightarrow> bool list \<Rightarrow> real list" where
  "np_getmask arr ms = select (vals arr) ms"

fun np_setmask :: "ndarray \<Rightarrow> bool list \<Rightarrow> real list \<Rightarrow> ndarray" where
  "np_setmask (Float64 xs) ms vs = Float64 (masked_set xs ms vs)"
| "np_setmask (Int64 ks) ms vs = Int64 (masked_set ks ms (map cast_int vs))"

text \<open>
  \<^verbatim>\<open>arr += s\<close> for a scalar \<open>s\<close>: in place, in the dtype of \<open>arr\<close>. Where the code
  does this, \<open>s\<close> is computed from the minimum of \<open>arr\<close> itself, so it is an integer
  when \<open>arr\<close> is int64.
\<close>

fun np_iadd :: "ndarray \<Rightarrow> real \<Rightarrow> ndarray" where
  "np_iadd (Float64 xs) s = Float64 (map (\<lambda>v. v + s) xs)"
| "np_iadd (Int64 ks) s = Int64 (map (\<lambda>k. cast_int (real_of_int k + s)) ks)"

text \<open>\<^verbatim>\<open>mask & flag\<close>: a mask array combined with a scalar boolean (broadcast).\<close>

definition mask_and :: "bool list \<Rightarrow> bool \<Rightarrow> bool list" where
  "mask_and ms b = map (\<lambda>m. m \<and> b) ms"

section \<open>The Yeo-Johnson piecewise transform\<close>

text \<open>
  The four masks of \<^verbatim>\<open>_yj_transform_y\<close>, in the order c1, c2, c3, c4. All of them are
  built from \<^verbatim>\<open>gte_zero_mask\<close>, which the source computes once, on entry, before any
  assignment into \<open>y\<close>.
\<close>

definition yj_masks :: "real list \<Rightarrow> real \<Rightarrow> bool list \<times> bool list \<times> bool list \<times> bool list" where
  "yj_masks y lam =
     (let gte_zero_mask = map (\<lambda>v. 0 \<le> v) y;
          lt_zero_mask = map Not gte_zero_mask;
          lam_gt_zero = (ZERO < lam);
          lam_eq_zero = (\<not> lam_gt_zero);
          lam_eq_two = (lam = 2);
          lam_not_two = (\<not> lam_eq_two)
      in (mask_and gte_zero_mask lam_gt_zero,
          mask_and gte_zero_mask lam_eq_zero,
          mask_and lt_zero_mask lam_not_two,
          mask_and lt_zero_mask lam_eq_two))"

text \<open>
  \<^verbatim>\<open>_yj_transform_y(y, lam)\<close>. After \<^verbatim>\<open>y = np.asarray(y)\<close> the four masked
  assignments write into that array, and the function returns it: given an array, the
  result is the argument itself, overwritten, in the dtype it had.
\<close>

definition yj_transform_y :: "heap \<Rightarrow> array_like \<Rightarrow> real \<Rightarrow> addr \<times> heap" where
  "yj_transform_y h0 y_in lam =
     (let (y, h) = np_asarray h0 y_in;
          (c1_mask, c2_mask, c3_mask, c4_mask) = yj_masks (vals (h ! y)) lam;
          h = h[y := np_setmask (h ! y) c1_mask
                 (map (\<lambda>v. ((v + 1) powr lam - 1) / lam) (np_getmask (h ! y) c1_mask))];
          h = h[y := np_setmask (h ! y) c2_mask
                 (map (\<lambda>v. ln (v + 1)) (np_getmask (h ! y) c2_mask))];
          two_min_lam = 2 - lam;
          h = h[y := np_setmask (h ! y) c3_mask
                 (map (\<lambda>v. - ((- v + 1) powr two_min_lam - 1) / two_min_lam)
                    (np_getmask (h ! y) c3_mask))];
          h = h[y := np_setmask (h ! y) c4_mask
                 (map (\<lambda>v. - ln (- v + 1)) (np_getmask (h ! y) c4_mask))]
      in (y, h))"

text \<open>
  The transform as section 4.5 of the specification tabulates it, one value at a time,
  and what a column holds once these values have been written into it.
\<close>

definition yj_piecewise :: "real \<Rightarrow> real \<Rightarrow> real" where
  "yj_piecewise lam x =
     (if 0 \<le> x \<and> ZERO < lam then ((x + 1) powr lam - 1) / lam
      else if 0 \<le> x \<and> lam \<le> ZERO then ln (x + 1)
      else if x < 0 \<and> lam \<noteq> 2 then - (((- x + 1) powr (2 - lam)) - 1) / (2 - lam)
      else - ln (- x + 1))"

fun np_write :: "ndarray \<Rightarrow> real list \<Rightarrow> ndarray" where
  "np_write (Float64 xs) vs = Float64 vs"
| "np_write (Int64 ks) vs = Int64 (map cast_int vs)"

section \<open>The Yeo-Johnson log-likelihood\<close>

text \<open>\<^verbatim>\<open>np.min\<close> raises \<^verbatim>\<open>ValueError\<close> on an empty array.\<close>

fun np_min :: "real list \<Rightarrow> error + real" where
  "np_min [] = Inl ValueError"
| "np_min (x # xs) = Inr (fold min xs x)"

text \<open>
  \<^verbatim>\<open>_yj_llf(data, lmb)\<close>. The model returns the score together with the store, so
  that what the function leaves behind in the caller's array can be read off. The
  names \<open>data\<close> and \<open>y_trans\<close> are addresses: \<open>y_trans\<close> is whatever
  \<^verbatim>\<open>_yj_transform_y(data, lmb)\<close> returns, and \<^verbatim>\<open>+=\<close> writes into the array it names.
  \<^verbatim>\<open>** 2.\<close> is the square. Means, variances and logarithms are float arithmetic on
  the values of the arrays.
\<close>

definition yj_llf :: "heap \<Rightarrow> array_like \<Rightarrow> real \<Rightarrow> error + (npfloat \<times> heap)" where
  "yj_llf h0 data_in lmb =
     (let (data, h) = np_asarray h0 data_in;
          n = length (vals (h ! data));
          (y_trans, h) = yj_transform_y h (NdArray data) lmb
      in case np_min (vals (h ! data)) of
           Inl e \<Rightarrow> Inl e
         | Inr min_d \<Rightarrow>
            (case np_min (vals (h ! y_trans)) of
               Inl e \<Rightarrow> Inl e
             | Inr min_y \<Rightarrow>
                (let h = (if min_d < ZERO
                          then h[data := np_iadd (h ! data) (\<bar>min_d\<bar> + 1)] else h);
                     h = (if min_y < ZERO
                          then h[y_trans := np_iadd (h ! y_trans) (\<bar>min_y\<bar> + 1)] else h);
                     y_mean = sum_list (vals (h ! y_trans)) / real n;
                     var = sum_list (map (\<lambda>v. (v - y_mean)\<^sup>2 / real n) (vals (h ! y_trans)))
                 in if 0 = var then Inr (NaN, h)
                    else Inr (Num ((lmb - 1) * sum_list (map ln (vals (h ! data)))
                                   - real n / 2 * ln var), h))))"

text \<open>
  The log-likelihood as section 4.4 of the specification words it: the logarithms are
  taken of the raw data (shifted when its minimum is below \<open>ZERO\<close>), the variance of
  the transformed vector (shifted by the same rule).
\<close>

definition shifted :: "real list \<Rightarrow> real list" where
  "shifted xs =
     (let m = fold min (tl xs) (hd xs)
      in if m < ZERO then map (\<lambda>v. v + (\<bar>m\<bar> + 1)) xs else xs)"

definition yj_llf_spec :: "real list \<Rightarrow> real \<Rightarrow> npfloat" where
  "yj_llf_spec data lam =
     (let y = shifted (map (yj_piecewise lam) data);
          n = real (length data);
          mean_y = sum_list y / n;
          var = sum_list (map (\<lambda>v. (v - mean_y)\<^sup>2) y) / n
      in if var = 0 then NaN
         else Num ((lam - 1) * sum_list (map ln (shifted data)) - (n / 2) * ln var))"

section \<open>The Box-Cox transform\<close>

text \<open>
  \<^verbatim>\<open>BoxCoxTransformer._transform_vector(vec, lam)\<close>. \<^verbatim>\<open>np.maximum\<close> builds a new array,
  and so do the arithmetic expressions and \<^verbatim>\<open>np.log\<close>: nothing is written into \<open>vec\<close>.
  \<open>min_value\<close> is a float, as documented, so the new arrays are float64 whatever the
  dtype of \<open>vec\<close>.
\<close>

definition bc_transform_vector :: "real \<Rightarrow> heap \<Rightarrow> array_like \<Rightarrow> real \<Rightarrow> addr \<times> heap" where
  "bc_transform_vector min_value h0 vec lam =
     (let (v, h) = np_asarray h0 vec;
          (y, h) = alloc h (Float64 (map (\<lambda>x. max x min_value) (vals (h ! v))))
      in if ZERO < lam then alloc h (Float64 (map (\<lambda>x. (x powr lam - 1) / lam) (vals (h ! y))))
         else alloc h (Float64 (map ln (vals (h ! y)))))"

text \<open>The Box-Cox transform of one value, as section 4.2 of the specification words it.\<close>

definition bc_piecewise :: "real \<Rightarrow> real \<Rightarrow> real \<Rightarrow> real" where
  "bc_piecewise min_value lam x =
     (let y = max x min_value
      in if ZERO < lam then (y powr lam - 1) / lam else ln y)"

section \<open>Tables\<close>

text \<open>
  A pandas \<^verbatim>\<open>DataFrame\<close> is its row count and its labelled columns, in order; a column
  is an array in the store, float64 or int64. Every value of the model is finite.
  Labels are strings, or positions when pandas builds the frame from unlabelled
  records.
\<close>

datatype label = Name string | Pos nat

record dataframe =
  n_rows :: nat
  columns :: "(label \<times> addr) list"

definition df_names :: "dataframe \<Rightarrow> label list" where
  "df_names X = map fst (columns X)"

text \<open>
  Column \<open>c\<close> of \<open>X\<close> in store \<open>h\<close>, as an array and as its values (empty when there
  is no such column).
\<close>

definition col_array :: "heap \<Rightarrow> dataframe \<Rightarrow> label \<Rightarrow> ndarray" where
  "col_array h X c = (case map_of (columns X) c of None \<Rightarrow> Float64 [] | Some a \<Rightarrow> h ! a)"

definition col_values :: "heap \<Rightarrow> dataframe \<Rightarrow> label \<Rightarrow> real list" where
  "col_values h X c = vals (col_array h X c)"

text \<open>\<^verbatim>\<open>X[c] = arr\<close>: an existing column is replaced where it stands, a new one is appended.\<close>

definition df_set :: "dataframe \<Rightarrow> label \<Rightarrow> addr \<Rightarrow> dataframe" where
  "df_set X c a = X\<lparr>columns := AList.update c a (columns X)\<rparr>"

text \<open>\<^verbatim>\<open>X.copy()\<close>: a deep copy, every column in a fresh array of the same dtype.\<close>

fun copy_columns :: "heap \<Rightarrow> (label \<times> addr) list \<Rightarrow> (label \<times> addr) list \<times> heap" where
  "copy_columns h [] = ([], h)"
| "copy_columns h ((c, a) # cs) =
     (let (a', h') = alloc h (h ! a);
          (cs', h'') = copy_columns h' cs
      in ((c, a') # cs', h''))"

definition df_copy :: "heap \<Rightarrow> dataframe \<Rightarrow> dataframe \<times> heap" where
  "df_copy h X = (let (cs, h') = copy_columns h (columns X) in (X\<lparr>columns := cs\<rparr>, h'))"

text \<open>\<^verbatim>\<open>X.values\<close>: the table as a matrix, row by row.\<close>

definition df_values :: "heap \<Rightarrow> dataframe \<Rightarrow> real list list" where
  "df_values h X = map (\<lambda>i. map (\<lambda>ca. vals (h ! snd ca) ! i) (columns X)) [0..<n_rows X]"

text \<open>
  What \<^verbatim>\<open>check_dataframe\<close> may be handed: a frame, some other iterable of records
  (given here by its row count and its columns, which \<^verbatim>\<open>DataFrame.from_records\<close>
  labels by position), or a value that is not iterable. The \<^verbatim>\<open>cols\<close> argument is
  absent, a list of labels, or a single label that is not iterable; the
  constructors record the answer of \<^verbatim>\<open>is_iterable\<close>, whose source is not part of
  the files at hand.
\<close>

datatype frame_like = DataFrame dataframe | Iterable nat "ndarray list" | NotIterable

datatype cols_arg = ColList "label list" | ColSingle label

fun alloc_columns :: "heap \<Rightarrow> nat \<Rightarrow> ndarray list \<Rightarrow> (label \<times> addr) list \<times> heap" where
  "alloc_columns h j [] = ([], h)"
| "alloc_columns h j (vs # rest) =
     (let (a, h') = alloc h vs;
          (cs, h'') = alloc_columns h' (Suc j) rest
      in ((Pos j, a) # cs, h''))"

definition from_records :: "heap \<Rightarrow> nat \<Rightarrow> ndarray list \<Rightarrow> dataframe \<times> heap" where
  "from_records h n vss =
     (let (cs, h') = alloc_columns h 0 vss in (\<lparr>n_rows = n, columns = cs\<rparr>, h'))"

definition np_isfinite :: "real \<Rightarrow> bool" where
  "np_isfinite v = True"

text \<open>\<^verbatim>\<open>X[cols].apply(lambda x: (~np.isfinite(x)).sum()).sum()\<close>\<close>

definition count_nonfinite :: "heap \<Rightarrow> dataframe \<Rightarrow> label list \<Rightarrow> nat" where
  "count_nonfinite h X cs =
     sum_list (map (\<lambda>c. length (filter (\<lambda>v. \<not> np_isfinite v) (col_values h X c))) cs)"

text \<open>
  \<^verbatim>\<open>check_dataframe(X, cols, assert_all_finite)\<close>, with \<^verbatim>\<open>column_diff\<close> at its default
  (no caller in \<^verbatim>\<open>skewness.py\<close> sets it). It returns the copy, the resolved columns
  and the store, which now holds the copy.
\<close>

definition check_dataframe ::
  "heap \<Rightarrow> frame_like \<Rightarrow> cols_arg option \<Rightarrow> bool \<Rightarrow> error + (dataframe \<times> label list \<times> heap)" where
  "check_dataframe h0 X_in cols_in assert_all_finite =
     (case (case X_in of
              DataFrame X \<Rightarrow> Inr (X, h0)
            | NotIterable \<Rightarrow> Inl TypeError
            | Iterable n vss \<Rightarrow>
                (if cols_in \<noteq> None then Inl ValueError else Inr (from_records h0 n vss))) of
        Inl e \<Rightarrow> Inl e
      | Inr (X, h) \<Rightarrow>
         (let present_columns = set (df_names X)
          in case (case cols_in of
                     Some c \<Rightarrow>
                       (let cl = (case c of ColList l \<Rightarrow> l | ColSingle s \<Rightarrow> [s])
                        in if list_ex (\<lambda>c. c \<notin> present_columns) cl then Inl ValueError
                           else Inr cl)
                   | None \<Rightarrow> Inr (df_names X)) of
               Inl e \<Rightarrow> Inl e
             | Inr cl \<Rightarrow>
                (if assert_all_finite \<and> 0 < count_nonfinite h X cl then Inl ValueError
                 else (let (X_copy, h') = df_copy h X in Inr (X_copy, cl, h')))))"

definition validate_multiple_rows :: "dataframe \<Rightarrow> error + unit" where
  "validate_multiple_rows frame =
     (let n_samples = n_rows frame in if n_samples < 2 then Inl ValueError else Inr ())"

definition validate_test_set_columns :: "label list \<Rightarrow> label list \<Rightarrow> error + unit" where
  "validate_test_set_columns fit_columns test_columns =
     (let present_cols = set test_columns
      in if \<not> list_all (\<lambda>t. t \<in> present_cols) fit_columns then Inl ValueError else Inr ())"

section \<open>The transformers\<close>

text \<open>
  The two concrete transformers differ in their parameter (\<^verbatim>\<open>min_value\<close> or
  \<^verbatim>\<open>brack\<close>), in their estimator and in \<^verbatim>\<open>_transform_vector\<close>. The attributes
  \<^verbatim>\<open>lambda_\<close> and \<^verbatim>\<open>fit_cols_\<close> exist only after a fit; they are the fields \<open>lambdas\<close>
  and \<open>fit_cols\<close>, \<open>None\<close> while absent.
\<close>

datatype variant = BoxCox real | YeoJohnson "real list"

record transformer =
  cols :: "cols_arg option"
  n_jobs :: int
  as_df :: bool
  kind :: variant
  lambdas :: "real list option"
  fit_cols :: "label list option"

fun transform_vector :: "variant \<Rightarrow> heap \<Rightarrow> array_like \<Rightarrow> real \<Rightarrow> addr \<times> heap" where
  "transform_vector (BoxCox min_value) h y lam = bc_transform_vector min_value h y lam"
| "transform_vector (YeoJohnson brack) h y lam = yj_transform_y h y lam"

text \<open>
  What \<^verbatim>\<open>_transform_vector\<close> returns for a column: a new float64 array of the Box-Cox
  values, or the column itself with the Yeo-Johnson values written into it.
\<close>

fun transform_array :: "variant \<Rightarrow> real \<Rightarrow> ndarray \<Rightarrow> ndarray" where
  "transform_array (BoxCox min_value) lam arr = Float64 (map (bc_piecewise min_value lam) (vals arr))"
| "transform_array (YeoJohnson brack) lam arr = np_write arr (map (yj_piecewise lam) (vals arr))"

text \<open>
  An estimation function (\<^verbatim>\<open>_BCEstimator\<close>, \<^verbatim>\<open>_YJEstimator\<close>) is handed one column
  \<^verbatim>\<open>X[i]\<close> and returns its \<open>\<lambda>\<close> or raises. The numeric searches behind the two
  (\<^verbatim>\<open>scipy.stats.boxcox\<close>, \<^verbatim>\<open>scipy.optimize.brent\<close>) are library code, so the estimator
  is a parameter of the model. It sees the column as an array, dtype and values.
  Since an estimator may write into the array it is given, it returns the array's
  final contents with its estimate.
\<close>

type_synonym estimator = "ndarray \<Rightarrow> error + (real \<times> ndarray)"

text \<open>
  \<^verbatim>\<open>list(Parallel(n_jobs)(delayed(estimation_function)(X[i]) for i in cols))\<close>: the
  estimates, in the order of \<open>cols\<close>.
\<close>

fun estimate_all :: "estimator \<Rightarrow> heap \<Rightarrow> dataframe \<Rightarrow> label list \<Rightarrow> error + (real list \<times> heap)" where
  "estimate_all est h X [] = Inr ([], h)"
| "estimate_all est h X (i # rest) =
     (case map_of (columns X) i of
        None \<Rightarrow> Inl KeyError
      | Some a \<Rightarrow>
         (case est (h ! a) of
            Inl e \<Rightarrow> Inl e
          | Inr (lam, v) \<Rightarrow>
             (case estimate_all est (h[a := v]) X rest of
                Inl e \<Rightarrow> Inl e
              | Inr (lams, h') \<Rightarrow> Inr (lam # lams, h'))))"

text \<open>\<^verbatim>\<open>_BaseSkewnessTransformer._fit(X, estimation_function)\<close>\<close>

definition fit :: "estimator \<Rightarrow> heap \<Rightarrow> transformer \<Rightarrow> frame_like \<Rightarrow> error + (transformer \<times> heap)" where
  "fit estimation_function h0 self X_in =
     (case check_dataframe h0 X_in (cols self) True of
        Inl e \<Rightarrow> Inl e
      | Inr (X, cs, h) \<Rightarrow>
         (case validate_multiple_rows X of
            Inl e \<Rightarrow> Inl e
          | Inr u \<Rightarrow>
             (case estimate_all estimation_function h X cs of
                Inl e \<Rightarrow> Inl e
              | Inr (lams, h') \<Rightarrow> Inr (self\<lparr>lambdas := Some lams, fit_cols := Some cs\<rparr>, h'))))"

text \<open>
  The loop of \<^verbatim>\<open>transform\<close>: \<^verbatim>\<open>X[nm] = self._transform_vector(X[nm], lam)\<close> for each
  pair of \<^verbatim>\<open>zip(cols, lambdas_)\<close>. The series \<^verbatim>\<open>X[nm]\<close> is a view of the column, so
  \<^verbatim>\<open>np.asarray\<close> of it is the column's own array.
\<close>

fun transform_cols :: "variant \<Rightarrow> heap \<Rightarrow> dataframe \<Rightarrow> (label \<times> real) list \<Rightarrow> error + (dataframe \<times> heap)" where
  "transform_cols k h X [] = Inr (X, h)"
| "transform_cols k h X ((nm, lam) # rest) =
     (case map_of (columns X) nm of
        None \<Rightarrow> Inl KeyError
      | Some a \<Rightarrow>
         (let (r, h') = transform_vector k h (NdArray a) lam
          in transform_cols k h' (df_set X nm r) rest))"

datatype outcome = Frame dataframe | Values "real list list"

text \<open>\<^verbatim>\<open>_BaseSkewnessTransformer.transform(X)\<close>\<close>

definition transform :: "heap \<Rightarrow> transformer \<Rightarrow> frame_like \<Rightarrow> error + (outcome \<times> heap)" where
  "transform h0 self X_in =
     (case lambdas self of
        None \<Rightarrow> Inl NotFittedError
      | Some lambdas_list \<Rightarrow>
         (case check_dataframe h0 X_in (cols self) True of
            Inl e \<Rightarrow> Inl e
          | Inr (X, cs0, h) \<Rightarrow>
             (case fit_cols self of
                None \<Rightarrow> Inl AttributeError
              | Some cs \<Rightarrow>
                 (case validate_test_set_columns cs (df_names X) of
                    Inl e \<Rightarrow> Inl e
                  | Inr u \<Rightarrow>
                     (case transform_cols (kind self) h X (zip cs lambdas_list) of
                        Inl e \<Rightarrow> Inl e
                      | Inr (X', h') \<Rightarrow>
                          Inr (if as_df self then Frame X' else Values (df_values h' X'), h'))))))"

text \<open>
  The transform of a single value, read off the code: the one-element float column
  \<open>[x]\<close> is handed to \<^verbatim>\<open>_yj_transform_y\<close> and the entry of the returned array is taken.
\<close>

definition yj_value :: "real \<Rightarrow> real \<Rightarrow> real" where
  "yj_value lam x = (let (y, h) = yj_transform_y [] (PyList [x]) lam in vals (h ! y) ! 0)"

section \<open>Predicates on tables and transformers\<close>

text \<open>
  A table is well formed in a store when its column names are pairwise different and
  every column is an array of the store with one value per row.
\<close>

definition wf_frame :: "heap \<Rightarrow> dataframe \<Rightarrow> bool" where
  "wf_frame h X =
     (distinct (df_names X)
      \<and> list_all (\<lambda>ca. snd ca < length h \<and> length (vals (h ! snd ca)) = n_rows X) (columns X))"

text \<open>The labels a \<^verbatim>\<open>cols\<close> argument names, and the target columns it resolves to.\<close>

definition cols_list :: "cols_arg \<Rightarrow> label list" where
  "cols_list c = (case c of ColList l \<Rightarrow> l | ColSingle s \<Rightarrow> [s])"

definition resolve :: "cols_arg option \<Rightarrow> dataframe \<Rightarrow> label list" where
  "resolve c X = (case c of None \<Rightarrow> df_names X | Some c' \<Rightarrow> cols_list c')"

definition cols_ok :: "cols_arg option \<Rightarrow> dataframe \<Rightarrow> bool" where
  "cols_ok c X = list_all (\<lambda>c. c \<in> set (df_names X)) (case c of None \<Rightarrow> [] | Some c' \<Rightarrow> cols_list c')"

text \<open>
  The working copy of a table: every column is an array at or above address \<open>lo\<close>,
  and no two column names share an array.
\<close>

definition owns :: "nat \<Rightarrow> heap \<Rightarrow> dataframe \<Rightarrow> bool" where
  "owns lo h X =
     ((\<forall>c a. map_of (columns X) c = Some a \<longrightarrow> lo \<le> a \<and> a < length h)
      \<and> (\<forall>c c' a. map_of (columns X) c = Some a \<longrightarrow> map_of (columns X) c' = Some a \<longrightarrow> c = c'))"

text \<open>
  What a list of (name, \<open>\<lambda>\<close>) pairs, taken in order, makes of column \<open>c\<close>: each pair
  that names \<open>c\<close> replaces the column by what \<^verbatim>\<open>_transform_vector\<close> returns for it.
\<close>

definition applied :: "variant \<Rightarrow> (label \<times> real) list \<Rightarrow> label \<Rightarrow> ndarray \<Rightarrow> ndarray" where
  "applied k ps c arr = foldl (\<lambda>arr p. if fst p = c then transform_array k (snd p) arr else arr) arr ps"

section \<open>Masked assignment\<close>

lemma length_masked_set [simp]: "length (masked_set xs ms vs) = length xs"
  by (induction xs ms vs rule: masked_set.induct) (auto split: list.splits)

lemma nth_masked_set:
  "length ms = length xs \<Longrightarrow> i < length xs \<Longrightarrow>
   masked_set xs ms (map g (select xs ms)) ! i = (if ms ! i then g (xs ! i) else xs ! i)"
proof (induction xs arbitrary: ms i)
  case Nil
  then show ?case by simp
next
  case (Cons x xs)
  then obtain m ms' where ms: "ms = m # ms'" and len: "length ms' = length xs"
    by (cases ms) auto
  show ?case
  proof (cases i)
    case 0
    then show ?thesis by (simp add: ms)
  next
    case (Suc j)
    with Cons.prems have "j < length xs" by simp
    from Cons.IH[OF len this] show ?thesis by (simp add: ms Suc)
  qed
qed

lemma select_map: "select (map f xs) ms = map f (select xs ms)"
  by (induction xs ms rule: select.induct) auto

lemma np_setmask_getmask:
  "np_setmask arr ms (map f (np_getmask arr ms)) =
     (case arr of
        Float64 xs \<Rightarrow> Float64 (masked_set xs ms (map f (select xs ms)))
      | Int64 ks \<Rightarrow>
          Int64 (masked_set ks ms (map (\<lambda>k. cast_int (f (real_of_int k))) (select ks ms))))"
  by (cases arr) (simp_all add: np_getmask_def select_map comp_def)

lemma yj_masks_length:
  "length (fst (yj_masks y lam)) = length y"
  "length (fst (snd (yj_masks y lam))) = length y"
  "length (fst (snd (snd (yj_masks y lam)))) = length y"
  "length (snd (snd (snd (yj_masks y lam)))) = length y"
  by (simp_all add: yj_masks_def mask_and_def Let_def)

lemma yj_masks_nth:
  assumes "i < length y"
  shows "fst (yj_masks y lam) ! i = (0 \<le> y ! i \<and> ZERO < lam)"
    and "fst (snd (yj_masks y lam)) ! i = (0 \<le> y ! i \<and> lam \<le> ZERO)"
    and "fst (snd (snd (yj_masks y lam))) ! i = (y ! i < 0 \<and> lam \<noteq> 2)"
    and "snd (snd (snd (yj_masks y lam))) ! i = (y ! i < 0 \<and> lam = 2)"
  using assms by (auto simp: yj_masks_def mask_and_def Let_def)

text \<open>
  The four masked assignments, one after the other, on the entries of an array whose
  entries are read through \<open>to\<close> and written through \<open>fr\<close>. Every position is under
  exactly one of the masks, so it is rewritten once, from the value it had on entry.
\<close>

lemma yj_values:
  fixes y :: "'a list" and lam :: real and to :: "'a \<Rightarrow> real" and fr :: "real \<Rightarrow> 'a"
  defines "ms \<equiv> yj_masks (map to y) lam"
  defines "y1 \<equiv> masked_set y (fst ms)
                  (map (\<lambda>x. fr (((to x + 1) powr lam - 1) / lam)) (select y (fst ms)))"
  defines "y2 \<equiv> masked_set y1 (fst (snd ms))
                  (map (\<lambda>x. fr (ln (to x + 1))) (select y1 (fst (snd ms))))"
  defines "y3 \<equiv> masked_set y2 (fst (snd (snd ms)))
                  (map (\<lambda>x. fr (- ((- to x + 1) powr (2 - lam) - 1) / (2 - lam)))
                     (select y2 (fst (snd (snd ms)))))"
  defines "y4 \<equiv> masked_set y3 (snd (snd (snd ms)))
                  (map (\<lambda>x. fr (- ln (- to x + 1))) (select y3 (snd (snd (snd ms)))))"
  shows "y4 = map (\<lambda>x. fr (yj_piecewise lam (to x))) y"
proof (rule nth_equalityI)
  show "length y4 = length (map (\<lambda>x. fr (yj_piecewise lam (to x))) y)"
    by (simp add: y4_def y3_def y2_def y1_def)
next
  fix i assume "i < length y4"
  then have i: "i < length y" by (simp add: y4_def y3_def y2_def y1_def)
  then have i': "i < length (map to y)" by simp
  have l: "length (fst ms) = length y" "length (fst (snd ms)) = length y"
    "length (fst (snd (snd ms))) = length y" "length (snd (snd (snd ms))) = length y"
    using yj_masks_length[of "map to y" lam] by (simp_all add: ms_def)
  have m: "fst ms ! i = (0 \<le> to (y ! i) \<and> ZERO < lam)"
    "fst (snd ms) ! i = (0 \<le> to (y ! i) \<and> lam \<le> ZERO)"
    "fst (snd (snd ms)) ! i = (to (y ! i) < 0 \<and> lam \<noteq> 2)"
    "snd (snd (snd ms)) ! i = (to (y ! i) < 0 \<and> lam = 2)"
    using yj_masks_nth[OF i', of lam] i by (simp_all add: ms_def)
  have 1: "y1 ! i = (if fst ms ! i then fr (((to (y ! i) + 1) powr lam - 1) / lam) else y ! i)"
    unfolding y1_def using nth_masked_set[OF l(1) i] by simp
  have 2: "y2 ! i = (if fst (snd ms) ! i then fr (ln (to (y1 ! i) + 1)) else y1 ! i)"
    unfolding y2_def using nth_masked_set[of "fst (snd ms)" y1 i] l i by (simp add: y1_def)
  have 3: "y3 ! i = (if fst (snd (snd ms)) ! i
                     then fr (- ((- to (y2 ! i) + 1) powr (2 - lam) - 1) / (2 - lam)) else y2 ! i)"
    unfolding y3_def using nth_masked_set[of "fst (snd (snd ms))" y2 i] l i
    by (simp add: y2_def y1_def)
  have 4: "y4 ! i = (if snd (snd (snd ms)) ! i then fr (- ln (- to (y3 ! i) + 1)) else y3 ! i)"
    unfolding y4_def using nth_masked_set[of "snd (snd (snd ms))" y3 i] l i
    by (simp add: y3_def y2_def y1_def)
  show "y4 ! i = map (\<lambda>x. fr (yj_piecewise lam (to x))) y ! i"
    using i by (auto simp: 1 2 3 4 m yj_piecewise_def)
qed

lemma yj_steps:
  fixes arr :: ndarray and lam :: real
  defines "ms \<equiv> yj_masks (vals arr) lam"
  defines "a1 \<equiv> np_setmask arr (fst ms)
                  (map (\<lambda>v. ((v + 1) powr lam - 1) / lam) (np_getmask arr (fst ms)))"
  defines "a2 \<equiv> np_setmask a1 (fst (snd ms))
                  (map (\<lambda>v. ln (v + 1)) (np_getmask a1 (fst (snd ms))))"
  defines "a3 \<equiv> np_setmask a2 (fst (snd (snd ms)))
                  (map (\<lambda>v. - ((- v + 1) powr (2 - lam) - 1) / (2 - lam))
                     (np_getmask a2 (fst (snd (snd ms)))))"
  defines "a4 \<equiv> np_setmask a3 (snd (snd (snd ms)))
                  (map (\<lambda>v. - ln (- v + 1)) (np_getmask a3 (snd (snd (snd ms)))))"
  shows "a4 = np_write arr (map (yj_piecewise lam) (vals arr))"
proof (cases arr)
  case (Float64 xs)
  show ?thesis
    using yj_values[of xs "\<lambda>x. x" lam "\<lambda>v. v"]
    unfolding a4_def a3_def a2_def a1_def ms_def np_setmask_getmask
    by (simp add: Float64)
next
  case (Int64 ks)
  show ?thesis
    using yj_values[of ks real_of_int lam cast_int]
    unfolding a4_def a3_def a2_def a1_def ms_def np_setmask_getmask
    by (simp add: Int64 comp_def)
qed

lemma yj_transform_y_array:
  assumes "a < length h"
  shows "yj_transform_y h (NdArray a) lam
           = (a, h[a := np_write (h ! a) (map (yj_piecewise lam) (vals (h ! a)))])"
  using assms yj_steps[of "h ! a" lam]
  by (simp add: yj_transform_y_def Let_def split_beta)

lemma yj_transform_y_list:
  "yj_transform_y h (PyList xs) lam = (length h, h @ [Float64 (map (yj_piecewise lam) xs)])"
  using yj_steps[of "Float64 xs" lam]
  by (simp add: yj_transform_y_def alloc_def Let_def split_beta)

lemma yj_transform_y_int_list:
  assumes "ks \<noteq> []"
  shows "yj_transform_y h (PyIntList ks) lam
           = (length h, h @ [Int64 (map (\<lambda>k. cast_int (yj_piecewise lam (real_of_int k))) ks)])"
  using assms yj_steps[of "Int64 ks" lam]
  by (simp add: yj_transform_y_def alloc_def Let_def split_beta comp_def)

section \<open>The Yeo-Johnson transform, branch by branch\<close>

text \<open>
  On a float64 column the masks of the code are the four conditions of the table,
  exactly one of them holds at each position, and the masked assignments leave at each
  position the value the table gives for the value that stood there.
\<close>

lemma yj_transform_y_float_column:
  assumes "a < length h" and "h ! a = Float64 xs" and "i < length xs"
  shows "(case yj_masks xs lam of (c1, c2, c3, c4) \<Rightarrow>
            c1 ! i = (0 \<le> xs ! i \<and> ZERO < lam) \<and>
            c2 ! i = (0 \<le> xs ! i \<and> lam \<le> ZERO) \<and>
            c3 ! i = (xs ! i < 0 \<and> lam \<noteq> 2) \<and>
            c4 ! i = (xs ! i < 0 \<and> lam = 2) \<and>
            length (filter id [c1 ! i, c2 ! i, c3 ! i, c4 ! i]) = 1)
         \<and> yj_transform_y h (NdArray a) lam = (a, h[a := Float64 (map (yj_piecewise lam) xs)])"
proof -
  note m = yj_masks_nth[OF assms(3), of lam]
  have "case yj_masks xs lam of (c1, c2, c3, c4) \<Rightarrow>
            c1 ! i = (0 \<le> xs ! i \<and> ZERO < lam) \<and>
            c2 ! i = (0 \<le> xs ! i \<and> lam \<le> ZERO) \<and>
            c3 ! i = (xs ! i < 0 \<and> lam \<noteq> 2) \<and>
            c4 ! i = (xs ! i < 0 \<and> lam = 2) \<and>
            length (filter id [c1 ! i, c2 ! i, c3 ! i, c4 ! i]) = 1"
    using m by (auto simp: split_beta)
  then show ?thesis
    using assms(1,2) by (simp add: yj_transform_y_array)
qed

text \<open>
  C2 fails on the code. A column of integers stays an int64 array under
  \<^verbatim>\<open>np.asarray\<close>, and the masked assignments write the float results into it: for
  the column \<open>[5, 6]\<close> and \<open>\<lambda> = 2\<close> the table gives \<open>((5 + 1)\<^sup>2 - 1) / 2 = 35/2\<close> for
  the value 5, and the code leaves 17. The same happens for a list of Python ints.
\<close>

theorem yj_transform_y_truncates_int_column:
  "yj_transform_y [Int64 [5, 6]] (NdArray 0) 2 = (0, [Int64 [17, 24]])
   \<and> yj_transform_y [] (PyIntList [5, 6]) 2 = (0, [Int64 [17, 24]])
   \<and> yj_piecewise 2 5 = 35 / 2 \<and> yj_piecewise 2 6 = 24"
proof -
  have p: "yj_piecewise 2 5 = 35 / 2" "yj_piecewise 2 6 = 24"
    by (simp_all add: yj_piecewise_def ZERO_def)
  have c: "cast_int (35 / 2) = 17" "cast_int 24 = 24"
    by (simp_all add: cast_int_def)
  have "yj_transform_y [Int64 [5, 6]] (NdArray 0) 2 = (0, [Int64 [17, 24]])"
    by (simp add: yj_transform_y_array p c)
  moreover have "yj_transform_y [] (PyIntList [5, 6]) 2 = (0, [Int64 [17, 24]])"
    by (simp add: yj_transform_y_int_list p c)
  ultimately show ?thesis using p by simp
qed

text \<open>
  C4 fails on the code. \<^verbatim>\<open>_yj_transform_y\<close> does not return a new column: handed the
  array \<open>[1, 3]\<close> at address 0 and \<open>\<lambda> = 2\<close>, it returns address 0 again, and the array
  at that address now holds the transformed values \<open>[3/2, 15/2]\<close>.
\<close>

theorem yj_transform_y_overwrites_argument:
  "yj_transform_y [Float64 [1, 3]] (NdArray 0) 2 = (0, [Float64 [3 / 2, 15 / 2]])"
  by (simp add: yj_transform_y_array yj_piecewise_def ZERO_def)

section \<open>Continuity of the Yeo-Johnson transform at zero\<close>

lemma yj_value_eq: "yj_value lam x = yj_piecewise lam x"
  by (simp add: yj_value_def yj_transform_y_list)

lemma yj_piecewise_split:
  "yj_piecewise lam =
     (\<lambda>x. if x \<le> 0
          then (if lam \<noteq> 2 then - (((- x + 1) powr (2 - lam)) - 1) / (2 - lam) else - ln (- x + 1))
          else (if ZERO < lam then ((x + 1) powr lam - 1) / lam else ln (x + 1)))"
  by (rule ext) (auto simp: yj_piecewise_def)

lemma isCont_neg_branch:
  "isCont (\<lambda>x::real. if lam \<noteq> 2 then - (((- x + 1) powr (2 - lam)) - 1) / (2 - lam)
                     else - ln (- x + 1)) 0"
  by (cases "lam = 2") (auto intro!: continuous_intros)

lemma isCont_pos_branch:
  "isCont (\<lambda>x::real. if ZERO < lam then ((x + 1) powr lam - 1) / lam else ln (x + 1)) 0"
  by (cases "ZERO < lam") (auto intro!: continuous_intros simp: ZERO_def)

lemma isCont_yj_piecewise: "isCont (yj_piecewise lam) 0"
proof -
  let ?k = "\<lambda>x::real. if lam \<noteq> 2 then - (((- x + 1) powr (2 - lam)) - 1) / (2 - lam)
                      else - ln (- x + 1)"
  let ?g = "\<lambda>x::real. if ZERO < lam then ((x + 1) powr lam - 1) / lam else ln (x + 1)"
  have "continuous (at_left 0) ?k"
    using isCont_neg_branch[of lam] by (rule continuous_at_imp_continuous_at_within)
  moreover have "(?g \<longlongrightarrow> ?k 0) (at_right 0)"
  proof -
    have "?g \<midarrow>0\<rightarrow> ?g 0" using isCont_pos_branch[of lam] by (simp add: isCont_def)
    moreover have "?g 0 = ?k 0" by simp
    ultimately have "?g \<midarrow>0\<rightarrow> ?k 0" by simp
    then show ?thesis by (rule filterlim_mono[OF _ order_refl]) (simp add: at_le)
  qed
  ultimately have "isCont (\<lambda>x. if x \<le> 0 then ?k x else ?g x) 0"
    by (rule isCont_If_ge)
  then show ?thesis by (subst yj_piecewise_split)
qed

text \<open>
  C9. For every \<open>\<lambda>\<close> the transform sends the value 0 to exactly 0, and it is continuous
  at 0: the values it gives to negative \<open>x\<close> tend to 0 as \<open>x\<close> tends to 0, as do those it
  gives to positive \<open>x\<close>.
\<close>

theorem yj_value_continuous_at_zero:
  "yj_value lam 0 = 0 \<and> isCont (yj_value lam) 0"
proof -
  have "yj_value lam = yj_piecewise lam"
    by (rule ext) (rule yj_value_eq)
  then show ?thesis
    using isCont_yj_piecewise[of lam] by (simp add: yj_piecewise_def)
qed

section \<open>The Yeo-Johnson log-likelihood on concrete columns\<close>

lemma ln_sum_neq: "ln (3 / 2) + ln (15 / 2) - ln 9 \<noteq> ln 3 - ln (9::real)"
proof -
  have "ln (3 / 2) + ln (15 / 2) = ln ((3 / 2) * (15 / 2) :: real)"
    by (rule ln_mult_pos[symmetric]) simp_all
  moreover have "ln ((3 / 2) * (15 / 2) :: real) \<noteq> ln 3" by simp
  ultimately show ?thesis by simp
qed

text \<open>
  C1 fails on the code. In \<^verbatim>\<open>_yj_llf\<close> the names \<open>data\<close> and \<open>y_trans\<close> denote one
  array: \<^verbatim>\<open>_yj_transform_y\<close> has overwritten \<open>data\<close> and returned it. For the column
  \<open>[1, 3]\<close> and \<open>\<lambda> = 2\<close> the transformed vector is \<open>[3/2, 15/2]\<close> with variance 9; the
  code sums the logarithms of the transformed values, \<open>ln (3/2) + ln (15/2) - ln 9\<close>,
  where the specified score sums those of the raw data, \<open>ln 1 + ln 3 - ln 9\<close>. The same
  happens when the caller passes a plain sequence.
\<close>

theorem yj_llf_takes_logs_of_transformed_data:
  "yj_llf [Float64 [1, 3]] (NdArray 0) 2
     = Inr (Num (ln (3 / 2) + ln (15 / 2) - ln 9), [Float64 [3 / 2, 15 / 2]])
   \<and> yj_llf [] (PyList [1, 3]) 2
     = Inr (Num (ln (3 / 2) + ln (15 / 2) - ln 9), [Float64 [3 / 2, 15 / 2]])
   \<and> yj_llf_spec [1, 3] 2 = Num (ln 3 - ln 9)
   \<and> ln (3 / 2) + ln (15 / 2) - ln 9 \<noteq> ln 3 - ln (9::real)"
proof -
  have "yj_llf [Float64 [1, 3]] (NdArray 0) 2
          = Inr (Num (ln (3 / 2) + ln (15 / 2) - ln 9), [Float64 [3 / 2, 15 / 2]])"
    by (simp add: yj_llf_def yj_transform_y_array yj_piecewise_def ZERO_def Let_def power2_eq_square)
  moreover have "yj_llf [] (PyList [1, 3]) 2
          = Inr (Num (ln (3 / 2) + ln (15 / 2) - ln 9), [Float64 [3 / 2, 15 / 2]])"
    by (simp add: yj_llf_def yj_transform_y_array yj_piecewise_def ZERO_def Let_def
        power2_eq_square alloc_def)
  moreover have "yj_llf_spec [1, 3] 2 = Num (ln 3 - ln 9)"
    by (simp add: yj_llf_spec_def shifted_def yj_piecewise_def ZERO_def Let_def power2_eq_square)
  ultimately show ?thesis using ln_sum_neq by simp
qed

text \<open>
  C3 fails on the code. After \<^verbatim>\<open>_yj_llf\<close> the caller's array holds other values: for
  the column \<open>[-1, 1]\<close> and \<open>\<lambda> = 1\<close> (where the transform changes nothing) both shifts
  of \<open>\<bar>-1\<bar> + 1\<close> have been added to it, leaving \<open>[3, 5]\<close>; for \<open>[1, 3]\<close> and \<open>\<lambda> = 2\<close> it
  holds the transformed values \<open>[3/2, 15/2]\<close>.
\<close>

theorem yj_llf_writes_into_caller_array:
  "yj_llf [Float64 [- 1, 1]] (NdArray 0) 1 = Inr (Num 0, [Float64 [3, 5]])
   \<and> yj_llf [Float64 [1, 3]] (NdArray 0) 2
       = Inr (Num (ln (3 / 2) + ln (15 / 2) - ln 9), [Float64 [3 / 2, 15 / 2]])"
proof -
  have "yj_llf [Float64 [- 1, 1]] (NdArray 0) 1 = Inr (Num 0, [Float64 [3, 5]])"
    by (simp add: yj_llf_def yj_transform_y_array yj_piecewise_def ZERO_def Let_def power2_eq_square)
  moreover have "yj_llf [Float64 [1, 3]] (NdArray 0) 2
          = Inr (Num (ln (3 / 2) + ln (15 / 2) - ln 9), [Float64 [3 / 2, 15 / 2]])"
    by (simp add: yj_llf_def yj_transform_y_array yj_piecewise_def ZERO_def Let_def power2_eq_square)
  ultimately show ?thesis by simp
qed

section \<open>The Box-Cox transform of a column\<close>

lemma bc_transform_vector_array:
  assumes "a < length h"
  shows "bc_transform_vector min_value h (NdArray a) lam =
           (Suc (length h),
            h @ [Float64 (map (\<lambda>x. max x min_value) (vals (h ! a))),
                 Float64 (map (bc_piecewise min_value lam) (vals (h ! a)))])"
  using assms by (simp add: bc_transform_vector_def alloc_def bc_piecewise_def Let_def nth_append)

text \<open>
  C5. For every column, every \<open>\<lambda>\<close> and a positive \<open>min_value\<close>,
  \<^verbatim>\<open>BoxCoxTransformer._transform_vector\<close> first floors every value at \<open>min_value\<close> (a
  new array, every entry at least \<open>min_value\<close> and so positive) and
  returns, in another new array, \<open>(y powr \<lambda> - 1) / \<lambda>\<close> of each floored value when
  \<open>\<lambda> > ZERO\<close> and \<open>ln y\<close> of each floored value when \<open>\<lambda> \<le> ZERO\<close>, with
  \<open>ZERO = 1e-16\<close>. The arrays already in the store, the argument among them, are left
  as they were.
\<close>

theorem bc_transform_vector_formula:
  assumes "a < length h" and "0 < min_value"
  shows "(let floored = map (\<lambda>x. max x min_value) (vals (h ! a))
          in bc_transform_vector min_value h (NdArray a) lam =
               (Suc (length h),
                h @ [Float64 floored,
                     Float64 (if ZERO < lam then map (\<lambda>y. (y powr lam - 1) / lam) floored
                              else map ln floored)])
             \<and> list_all (\<lambda>y. min_value \<le> y \<and> 0 < y) floored)"
proof -
  have "min_value \<le> max x min_value \<and> 0 < max x min_value" for x
    using assms(2) by auto
  then show ?thesis
    using assms(1)
    by (simp add: bc_transform_vector_array bc_piecewise_def list_all_iff Let_def)
qed

theorem bc_transform_vector_formula_witness:
  "(0::nat) < length [Float64 [0, 4]] \<and> (0::real) < 1 / 10 ^ 12
   \<and> bc_transform_vector (1 / 10 ^ 12) [Float64 [0, 4]] (NdArray 0) (1 / 2)
       = (2, [Float64 [0, 4], Float64 [1 / 10 ^ 12, 4],
              Float64 [((1 / 10 ^ 12) powr (1 / 2) - 1) * 2, 2]])
   \<and> bc_transform_vector (1 / 10 ^ 12) [Float64 [0, 4]] (NdArray 0) 0
       = (2, [Float64 [0, 4], Float64 [1 / 10 ^ 12, 4], Float64 [ln (1 / 10 ^ 12), ln 4]])
   \<and> bc_transform_vector (1 / 10 ^ 12) [Int64 [0, 4]] (NdArray 0) 0
       = (2, [Int64 [0, 4], Float64 [1 / 10 ^ 12, 4], Float64 [ln (1 / 10 ^ 12), ln 4]])"
proof -
  have h: "(0::nat) < length [Float64 [0, 4]]" and h': "(0::nat) < length [Int64 [0, 4]]"
    and m: "(0::real) < 1 / 10 ^ 12" by simp_all
  have "(4::real) powr (1 / 2) = 2"
    using powr_half_sqrt[of "4::real"] by simp
  with bc_transform_vector_formula[OF h m, of "1 / 2"]
    bc_transform_vector_formula[OF h m, of 0]
    bc_transform_vector_formula[OF h' m, of 0] h m show ?thesis
    by (simp add: ZERO_def Let_def)
qed

section \<open>Copying a table\<close>

lemma copy_columns_eq:
  "list_all (\<lambda>ca. snd ca < length h) cs \<Longrightarrow>
   copy_columns h cs
     = (zip (map fst cs) [length h ..< length h + length cs], h @ map (\<lambda>ca. h ! snd ca) cs)"
proof (induction cs arbitrary: h)
  case Nil
  then show ?case by simp
next
  case (Cons p cs)
  obtain c a where p: "p = (c, a)" by (cases p)
  from Cons.prems have a: "a < length h" and rest: "list_all (\<lambda>ca. snd ca < length h) cs"
    by (simp_all add: p)
  have rest': "list_all (\<lambda>ca. snd ca < length (h @ [h ! a])) cs"
    using rest by (auto simp: list_all_iff)
  have m: "map (\<lambda>ca. (h @ [h ! a]) ! snd ca) cs = map (\<lambda>ca. h ! snd ca) cs"
    using rest by (auto simp: list_all_iff nth_append)
  have step: "copy_columns h (p # cs) =
      ((c, length h) # zip (map fst cs) [Suc (length h) ..< Suc (length h) + length cs],
       h @ [h ! a] @ map (\<lambda>ca. h ! snd ca) cs)"
    using Cons.IH[OF rest'] by (simp add: p alloc_def m del: upt_Suc)
  have z: "zip (map fst (p # cs)) [length h ..< length h + length (p # cs)] =
      (c, length h) # zip (map fst cs) [Suc (length h) ..< Suc (length h) + length cs]"
    by (simp add: p upt_conv_Cons del: upt_Suc)
  show ?case unfolding step z by (simp add: p)
qed

lemma copy_columns_addrs:
  "fst (copy_columns h cs) = zip (map fst cs) [length h ..< length h + length cs]
   \<and> length (snd (copy_columns h cs)) = length h + length cs"
proof (induction cs arbitrary: h)
  case Nil
  then show ?case by simp
next
  case (Cons p cs)
  obtain c a where p: "p = (c, a)" by (cases p)
  have z: "zip (map fst (p # cs)) [length h ..< length h + length (p # cs)] =
      (c, length h) # zip (map fst cs) [Suc (length h) ..< Suc (length h) + length cs]"
    by (simp add: p upt_conv_Cons del: upt_Suc)
  have "fst (copy_columns h (p # cs)) = (c, length h) # fst (copy_columns (h @ [h ! a]) cs)"
    and "snd (copy_columns h (p # cs)) = snd (copy_columns (h @ [h ! a]) cs)"
    by (simp_all add: p alloc_def split_beta)
  then show ?case unfolding z using Cons.IH[of "h @ [h ! a]"] by simp
qed

lemma map_of_zip_inj:
  assumes "distinct ys" and "map_of (zip xs ys) c = Some a" and "map_of (zip xs ys) c' = Some a"
  shows "c = c'"
proof -
  from assms(2) have "(c, a) \<in> set (zip xs ys)" by (rule map_of_SomeD)
  then obtain i where i: "i < length xs" "i < length ys" "xs ! i = c" "ys ! i = a"
    by (auto simp: in_set_zip)
  from assms(3) have "(c', a) \<in> set (zip xs ys)" by (rule map_of_SomeD)
  then obtain j where j: "j < length xs" "j < length ys" "xs ! j = c'" "ys ! j = a"
    by (auto simp: in_set_zip)
  from assms(1) i(2,4) j(2,4) have "i = j" using nth_eq_iff_index_eq[of ys i j] by simp
  with i j show ?thesis by simp
qed

lemma df_copy_owns:
  assumes "df_copy h X = (Xc, h1)"
  shows "owns (length h) h1 Xc" and "df_names Xc = df_names X" and "n_rows Xc = n_rows X"
proof -
  let ?n = "length h" and ?k = "length (columns X)"
  from assms copy_columns_addrs[of h "columns X"]
  have c: "columns Xc = zip (df_names X) [?n ..< ?n + ?k]" and l: "length h1 = ?n + ?k"
    and r: "n_rows Xc = n_rows X"
    by (auto simp: df_copy_def split_beta df_names_def)
  show "n_rows Xc = n_rows X" by (rule r)
  show "df_names Xc = df_names X" by (simp add: c df_names_def)
  show "owns (length h) h1 Xc"
    unfolding owns_def c
  proof (intro conjI allI impI)
    fix c a assume "map_of (zip (df_names X) [?n ..< ?n + ?k]) c = Some a"
    then have "a \<in> set [?n ..< ?n + ?k]" by (auto dest!: map_of_SomeD set_zip_rightD)
    then show "?n \<le> a" "a < length h1" by (simp_all add: l)
  next
    fix c c' a
    assume "map_of (zip (df_names X) [?n ..< ?n + ?k]) c = Some a"
      and "map_of (zip (df_names X) [?n ..< ?n + ?k]) c' = Some a"
    then show "c = c'" by (rule map_of_zip_inj[OF distinct_upt])
  qed
qed

lemma df_copy_values:
  assumes "wf_frame h X" and "df_copy h X = (Xc, h1)"
  shows "h1 = h @ map (\<lambda>ca. h ! snd ca) (columns X)"
    and "col_array h1 Xc c = col_array h X c"
proof -
  let ?n = "length h" and ?k = "length (columns X)"
  from assms(1) have v: "list_all (\<lambda>ca. snd ca < length h) (columns X)"
    and d: "distinct (map fst (columns X))"
    by (auto simp: wf_frame_def list_all_iff df_names_def)
  from assms(2) copy_columns_eq[OF v]
  have c: "columns Xc = zip (map fst (columns X)) [?n ..< ?n + ?k]"
    and h1: "h1 = h @ map (\<lambda>ca. h ! snd ca) (columns X)"
    by (auto simp: df_copy_def)
  show "h1 = h @ map (\<lambda>ca. h ! snd ca) (columns X)" by (rule h1)
  show "col_array h1 Xc c = col_array h X c"
  proof (cases "c \<in> set (map fst (columns X))")
    case False
    then have n1: "map_of (columns X) c = None" by (simp add: map_of_eq_None_iff)
    from False have n2: "map_of (zip (map fst (columns X)) [?n ..< ?n + ?k]) c = None"
      using map_of_zip_is_None[of "map fst (columns X)" "[?n ..< ?n + ?k]" c] by simp
    show ?thesis by (simp only: col_array_def c n1 n2 option.case)
  next
    case True
    then obtain i where i: "i < ?k" "map fst (columns X) ! i = c"
      by (auto simp: in_set_conv_nth)
    have "map_of (zip (map fst (columns X)) [?n ..< ?n + ?k]) (map fst (columns X) ! i)
            = Some ([?n ..< ?n + ?k] ! i)"
      using d i(1) by (intro map_of_zip_nth) simp_all
    then have 1: "map_of (columns Xc) c = Some (?n + i)" using i by (simp add: c)
    have "(c, snd (columns X ! i)) \<in> set (columns X)"
      using i by (metis nth_map nth_mem prod.collapse)
    then have 2: "map_of (columns X) c = Some (snd (columns X ! i))"
      using d by (simp add: map_of_is_SomeI)
    show ?thesis using i(1) by (simp add: col_array_def 1 2 h1 nth_append)
  qed
qed

section \<open>Validation\<close>

lemma count_nonfinite_zero [simp]: "count_nonfinite h X cs = 0"
  by (simp add: count_nonfinite_def np_isfinite_def)

lemma check_dataframe_frame:
  assumes "cols_ok c X"
  shows "check_dataframe h (DataFrame X) c True =
           Inr (fst (df_copy h X), resolve c X, snd (df_copy h X))"
  using assms
  by (auto simp: check_dataframe_def cols_ok_def resolve_def cols_list_def list_ex_iff
      list_all_iff split_beta split: option.splits cols_arg.splits)

lemma check_dataframe_frame_fails:
  assumes "\<not> cols_ok c X"
  shows "check_dataframe h (DataFrame X) c True = Inl ValueError"
proof (cases c)
  case None
  with assms show ?thesis by (simp add: cols_ok_def)
next
  case (Some c')
  show ?thesis
  proof (cases c')
    case (ColList l)
    with assms Some have "list_ex (\<lambda>c. c \<notin> set (df_names X)) l"
      by (simp add: cols_ok_def cols_list_def list_ex_iff list_all_iff)
    then show ?thesis by (simp add: check_dataframe_def Some ColList)
  next
    case (ColSingle s)
    with assms Some have "s \<notin> set (df_names X)"
      by (simp add: cols_ok_def cols_list_def)
    then show ?thesis by (simp add: check_dataframe_def Some ColSingle)
  qed
qed

lemma validate_test_set_columns_ok:
  "list_all (\<lambda>c. c \<in> set names) fc \<Longrightarrow> validate_test_set_columns fc names = Inr ()"
  by (simp add: validate_test_set_columns_def)

section \<open>The transform loop\<close>

lemma transform_vector_effect:
  assumes "a < length h" and "transform_vector k h (NdArray a) lam = (r, h')"
  shows "length h \<le> length h'" and "r < length h'"
    and "h' ! r = transform_array k lam (h ! a)"
    and "\<And>b. b < length h \<Longrightarrow> b \<noteq> a \<Longrightarrow> h' ! b = h ! b"
    and "r = a \<or> length h \<le> r"
proof -
  have "length h \<le> length h' \<and> r < length h' \<and> h' ! r = transform_array k lam (h ! a)
        \<and> (\<forall>b. b < length h \<longrightarrow> b \<noteq> a \<longrightarrow> h' ! b = h ! b) \<and> (r = a \<or> length h \<le> r)"
  proof (cases k)
    case (BoxCox mv)
    with assms have "r = Suc (length h)"
      and "h' = h @ [Float64 (map (\<lambda>x. max x mv) (vals (h ! a))),
                     Float64 (map (bc_piecewise mv lam) (vals (h ! a)))]"
      by (simp_all add: bc_transform_vector_array)
    then show ?thesis by (simp add: BoxCox nth_append)
  next
    case (YeoJohnson br)
    with assms have "r = a"
      and "h' = h[a := np_write (h ! a) (map (yj_piecewise lam) (vals (h ! a)))]"
      by (auto simp: yj_transform_y_array)
    then show ?thesis using assms(1) by (simp add: YeoJohnson)
  qed
  then show "length h \<le> length h'" "r < length h'" "h' ! r = transform_array k lam (h ! a)"
       "r = a \<or> length h \<le> r" "\<And>b. b < length h \<Longrightarrow> b \<noteq> a \<Longrightarrow> h' ! b = h ! b"
    by blast+
qed


lemma owns_map_of_update:
  assumes o: "owns lo h X" and a: "map_of (columns X) nm = Some a"
    and h': "length h \<le> length h'" "r < length h'" "r = a \<or> length h \<le> r"
  shows "owns lo h' (df_set X nm r)"
proof -
  have m: "map_of (columns (df_set X nm r)) = (map_of (columns X))(nm \<mapsto> r)"
    by (simp add: df_set_def update_conv')
  from o a have abound: "lo \<le> a" "a < length h" by (auto simp: owns_def)
  have lo: "lo \<le> r" using h'(3) abound by auto
  show ?thesis
    unfolding owns_def m
  proof (intro conjI allI impI)
    fix c b assume A: "((map_of (columns X))(nm \<mapsto> r)) c = Some b"
    have "lo \<le> b \<and> b < length h'"
    proof (cases "c = nm")
      case True
      with A have "b = r" by simp
      then show ?thesis using lo h'(2) by simp
    next
      case False
      with A have "map_of (columns X) c = Some b" by simp
      with o have "lo \<le> b" "b < length h" by (auto simp: owns_def)
      then show ?thesis using h'(1) by simp
    qed
    then show "lo \<le> b" "b < length h'" by simp_all
  next
    fix c c' b
    assume 1: "((map_of (columns X))(nm \<mapsto> r)) c = Some b"
      and 2: "((map_of (columns X))(nm \<mapsto> r)) c' = Some b"
    show "c = c'"
    proof (cases "c = nm"; cases "c' = nm")
      assume "c = nm" "c' = nm" then show ?thesis by simp
    next
      assume c: "c = nm" and c': "c' \<noteq> nm"
      then have r: "map_of (columns X) c' = Some r" using 1 2 by auto
      with o have "r < length h" unfolding owns_def by blast
      with h'(3) have "r = a" by simp
      with o a r have "c' = nm" unfolding owns_def by blast
      with c' show ?thesis by simp
    next
      assume c: "c \<noteq> nm" and c': "c' = nm"
      then have r: "map_of (columns X) c = Some r" using 1 2 by auto
      with o have "r < length h" unfolding owns_def by blast
      with h'(3) have "r = a" by simp
      with o a r have "c = nm" unfolding owns_def by blast
      with c show ?thesis by simp
    next
      assume "c \<noteq> nm" "c' \<noteq> nm"
      with 1 2 have "map_of (columns X) c = Some b" "map_of (columns X) c' = Some b" by auto
      with o show ?thesis unfolding owns_def by blast
    qed
  qed
qed

lemma transform_cols_inv:
  assumes "owns lo h X" and "list_all (\<lambda>p. fst p \<in> set (df_names X)) ps"
  shows "\<exists>X' h'. transform_cols k h X ps = Inr (X', h')
           \<and> owns lo h' X' \<and> df_names X' = df_names X \<and> n_rows X' = n_rows X
           \<and> length h \<le> length h'
           \<and> (\<forall>b<lo. b < length h \<longrightarrow> h' ! b = h ! b)
           \<and> (\<forall>c. col_array h' X' c = applied k ps c (col_array h X c))"
  using assms
proof (induction ps arbitrary: h X)
  case Nil
  then show ?case by (simp add: applied_def)
next
  case (Cons p ps)
  obtain nm lam where p: "p = (nm, lam)" by (cases p)
  from Cons.prems(2) have nm: "nm \<in> set (df_names X)"
    and rest: "list_all (\<lambda>p. fst p \<in> set (df_names X)) ps" by (simp_all add: p)
  from nm obtain a where a: "map_of (columns X) nm = Some a"
    by (auto simp: df_names_def weak_map_of_SomeI dest!: weak_map_of_SomeI)
  from Cons.prems(1) a have ab: "lo \<le> a" "a < length h" by (auto simp: owns_def)
  obtain r h1 where tv: "transform_vector k h (NdArray a) lam = (r, h1)"
    by (cases "transform_vector k h (NdArray a) lam")
  note e = transform_vector_effect[OF ab(2) tv]
  let ?X1 = "df_set X nm r"
  have o1: "owns lo h1 ?X1"
    using owns_map_of_update[OF Cons.prems(1) a e(1) e(2) e(5)] .
  have names1: "df_names ?X1 = df_names X"
    using nm by (simp add: df_set_def df_names_def update_keys)
  have rest1: "list_all (\<lambda>p. fst p \<in> set (df_names ?X1)) ps"
    using rest by (simp add: names1)
  from Cons.IH[OF o1 rest1] obtain X' h' where
    IH: "transform_cols k h1 ?X1 ps = Inr (X', h')" "owns lo h' X'"
      "df_names X' = df_names ?X1" "n_rows X' = n_rows ?X1" "length h1 \<le> length h'"
      "\<forall>b<lo. b < length h1 \<longrightarrow> h' ! b = h1 ! b"
      "\<forall>c. col_array h' X' c = applied k ps c (col_array h1 ?X1 c)"
    by blast
  have cv: "col_array h1 ?X1 c = (if c = nm then transform_array k lam (col_array h X c) else col_array h X c)" for c
  proof (cases "c = nm")
    case True
    then show ?thesis using a e(3) by (simp add: col_array_def df_set_def update_conv')
  next
    case False
    show ?thesis
    proof (cases "map_of (columns X) c")
      case None
      then show ?thesis using False by (simp add: col_array_def df_set_def update_conv')
    next
      case (Some b)
      with Cons.prems(1) a False have "b \<noteq> a" "b < length h" by (auto simp: owns_def)
      with e(4) Some False show ?thesis by (simp add: col_array_def df_set_def update_conv')
    qed
  qed
  have old: "\<forall>b<lo. b < length h \<longrightarrow> h' ! b = h ! b"
    using IH(6) e(1) e(4) ab by auto
  have "transform_cols k h X (p # ps) = Inr (X', h')"
    using a tv IH(1) by (simp add: p)
  moreover have "\<forall>c. col_array h' X' c = applied k (p # ps) c (col_array h X c)"
    using IH(7) cv by (simp add: applied_def p)
  moreover have "n_rows X' = n_rows X" using IH(4) by (simp add: df_set_def)
  moreover have "length h \<le> length h'" using IH(5) e(1) by simp
  ultimately show ?case using IH(2) IH(3) names1 old by auto
qed

lemma transform_run:
  assumes f: "lambdas self = Some ls" "fit_cols self = Some fc"
    and w: "wf_frame h X" and c: "cols_ok (cols self) X"
    and p: "list_all (\<lambda>c. c \<in> set (df_names X)) fc"
  shows "\<exists>X' h'. transform h self (DataFrame X)
             = Inr (if as_df self then Frame X' else Values (df_values h' X'), h')
           \<and> owns (length h) h' X' \<and> df_names X' = df_names X \<and> n_rows X' = n_rows X
           \<and> take (length h) h' = h
           \<and> (\<forall>c. col_array h' X' c = applied (kind self) (zip fc ls) c (col_array h X c))"
proof -
  obtain Xc h1 where cp: "df_copy h X = (Xc, h1)" by (cases "df_copy h X")
  note o = df_copy_owns[OF cp]
  note v = df_copy_values[OF w cp]
  have chk: "check_dataframe h (DataFrame X) (cols self) True = Inr (Xc, resolve (cols self) X, h1)"
    using check_dataframe_frame[OF c, of h] cp by simp
  have vt: "validate_test_set_columns fc (df_names Xc) = Inr ()"
    using p by (simp add: validate_test_set_columns_ok o(2))
  have ps: "list_all (\<lambda>p. fst p \<in> set (df_names Xc)) (zip fc ls)"
    using p by (auto simp: list_all_iff o(2) dest: set_zip_leftD)
  from transform_cols_inv[OF o(1) ps, of "kind self"] obtain X' h' where
    t: "transform_cols (kind self) h1 Xc (zip fc ls) = Inr (X', h')"
      "owns (length h) h' X'" "df_names X' = df_names Xc" "n_rows X' = n_rows Xc"
      "length h1 \<le> length h'" "\<forall>b<length h. b < length h1 \<longrightarrow> h' ! b = h1 ! b"
      "\<forall>c. col_array h' X' c = applied (kind self) (zip fc ls) c (col_array h1 Xc c)"
    by blast
  have "take (length h) h' = h"
  proof (rule nth_equalityI)
    show "length (take (length h) h') = length h" using t(5) v(1) by simp
  next
    fix b assume "b < length (take (length h) h')"
    then have b: "b < length h" by simp
    then have "h' ! b = h1 ! b" using t(6) v(1) by simp
    then show "take (length h) h' ! b = h ! b" using b v(1) by (simp add: nth_append)
  qed
  moreover have "transform h self (DataFrame X)
             = Inr (if as_df self then Frame X' else Values (df_values h' X'), h')"
    by (simp add: transform_def f chk vt t(1))
  ultimately show ?thesis using t o v(2) by auto
qed

section \<open>Fitting\<close>

lemma estimate_all_length:
  "estimate_all est h X cs = Inr (ls, h') \<Longrightarrow> length ls = length cs"
  by (induction cs arbitrary: h ls) (auto split: option.splits sum.splits prod.splits)

lemma estimate_all_nth:
  assumes "estimate_all est h X cs = Inr (ls, h')" and "distinct cs"
    and inj: "\<forall>c c' a. map_of (columns X) c = Some a \<longrightarrow> map_of (columns X) c' = Some a \<longrightarrow> c = c'"
  shows "\<forall>i<length cs. \<exists>v. est (col_array h X (cs ! i)) = Inr (ls ! i, v)"
  using assms(1,2)
proof (induction cs arbitrary: h ls)
  case Nil
  then show ?case by simp
next
  case (Cons c cs)
  from Cons.prems(1) obtain a lam v lams where
    a: "map_of (columns X) c = Some a" and e: "est (h ! a) = Inr (lam, v)"
    and r: "estimate_all est (h[a := v]) X cs = Inr (lams, h')" and ls: "ls = lam # lams"
    by (auto split: option.splits sum.splits prod.splits)
  from Cons.prems(2) have d: "distinct cs" and n: "c \<notin> set cs" by simp_all
  note IH = Cons.IH[OF r d]
  show ?case
  proof (intro allI impI)
    fix i assume i: "i < length (c # cs)"
    show "\<exists>v. est (col_array h X ((c # cs) ! i)) = Inr (ls ! i, v)"
    proof (cases i)
      case 0
      then show ?thesis using a e by (simp add: col_array_def ls)
    next
      case (Suc j)
      with i have j: "j < length cs" by simp
      with n have ne: "cs ! j \<noteq> c" by auto
      have same: "col_array (h[a := v]) X (cs ! j) = col_array h X (cs ! j)"
      proof (cases "map_of (columns X) (cs ! j)")
        case None
        then show ?thesis by (simp add: col_array_def)
      next
        case (Some b)
        with inj a ne have "b \<noteq> a" by blast
        then show ?thesis using Some by (simp add: col_array_def)
      qed
      from IH j obtain w where "est (col_array (h[a := v]) X (cs ! j)) = Inr (lams ! j, w)"
        by blast
      then show ?thesis unfolding same by (auto simp: Suc ls)
    qed
  qed
qed

lemma check_dataframe_copy:
  assumes "check_dataframe h X_in c fin = Inr (Xc, cs, h1)"
  shows "\<forall>c c' a. map_of (columns Xc) c = Some a \<longrightarrow> map_of (columns Xc) c' = Some a \<longrightarrow> c = c'"
proof -
  from assms obtain X0 h0 where "df_copy h0 X0 = (Xc, h1)"
    by (auto simp: check_dataframe_def Let_def split_beta
        split: sum.splits frame_like.splits if_splits option.splits prod.splits)
  from df_copy_owns(1)[OF this] show ?thesis unfolding owns_def by blast
qed

lemma fit_result:
  assumes "fit est h0 self0 X0 = Inr (self, h1)"
  shows "\<exists>ls cs. self = self0\<lparr>lambdas := Some ls, fit_cols := Some cs\<rparr>
           \<and> length ls = length cs
           \<and> (case cols self0 of None \<Rightarrow> True | Some c \<Rightarrow> cs = cols_list c)"
proof -
  from assms obtain Xc cs h2 ls where
    chk: "check_dataframe h0 X0 (cols self0) True = Inr (Xc, cs, h2)"
    and est: "estimate_all est h2 Xc cs = Inr (ls, h1)"
    and s: "self = self0\<lparr>lambdas := Some ls, fit_cols := Some cs\<rparr>"
    by (auto simp: fit_def split: sum.splits prod.splits)
  have "case cols self0 of None \<Rightarrow> True | Some c \<Rightarrow> cs = cols_list c"
    using chk
    by (auto simp: check_dataframe_def cols_list_def Let_def split_beta
        split: sum.splits prod.splits option.splits if_splits frame_like.splits)
  with s estimate_all_length[OF est] show ?thesis by blast
qed

text \<open>
  A run of \<^verbatim>\<open>_fit\<close> on a table of two rows and two columns, the columns requested in
  the order \<open>b\<close>, \<open>a\<close>, with an estimator that returns the sum of the column.
\<close>

lemma fit_run_two_columns:
  "fit (\<lambda>arr. Inr (sum_list (vals arr), arr)) [Float64 [1, 2], Float64 [3, 4]]
        \<lparr>cols = Some (ColList [Name ''b'', Name ''a'']), n_jobs = 1, as_df = True,
          kind = BoxCox (1 / 10 ^ 12), lambdas = None, fit_cols = None\<rparr>
        (DataFrame \<lparr>n_rows = 2, columns = [(Name ''a'', 0), (Name ''b'', 1)]\<rparr>)
     = Inr (\<lparr>cols = Some (ColList [Name ''b'', Name ''a'']), n_jobs = 1, as_df = True,
             kind = BoxCox (1 / 10 ^ 12), lambdas = Some [7, 3],
             fit_cols = Some [Name ''b'', Name ''a'']\<rparr>,
            [Float64 [1, 2], Float64 [3, 4], Float64 [1, 2], Float64 [3, 4]])"
  by (simp add: fit_def check_dataframe_def df_names_def count_nonfinite_def np_isfinite_def
      df_copy_def alloc_def validate_multiple_rows_def)

text \<open>
  C8, as amended. After every successful \<^verbatim>\<open>_fit\<close> the stored column list is the list
  of target columns that \<^verbatim>\<open>check_dataframe\<close> resolved, in that order (for a table:
  the \<^verbatim>\<open>cols\<close> argument, or all columns of the table when it is absent), and the list
  of \<open>\<lambda>\<close> has the same length. When the target columns are pairwise different, the
  \<open>i\<close>-th \<open>\<lambda>\<close> is what the estimator returned for the \<open>i\<close>-th target column. The stored names are unique only if the resolved target columns are: the
  code neither checks nor removes duplicates.
\<close>

theorem fit_stores_estimates_in_column_order:
  assumes "fit est h self X_in = Inr (self', h')"
  shows "\<exists>Xc cs h1 ls.
           check_dataframe h X_in (cols self) True = Inr (Xc, cs, h1)
         \<and> fit_cols self' = Some cs \<and> lambdas self' = Some ls
         \<and> length ls = length cs
         \<and> (distinct cs \<longrightarrow> (\<forall>i<length cs. \<exists>v. est (col_array h1 Xc (cs ! i)) = Inr (ls ! i, v)))
         \<and> (\<forall>X. X_in = DataFrame X \<longrightarrow> wf_frame h X \<longrightarrow>
               cs = resolve (cols self) X \<and> (\<forall>c. col_array h1 Xc c = col_array h X c))"
proof -
  from assms obtain Xc cs h1 ls where
    chk: "check_dataframe h X_in (cols self) True = Inr (Xc, cs, h1)"
    and est: "estimate_all est h1 Xc cs = Inr (ls, h')"
    and self': "self' = self\<lparr>lambdas := Some ls, fit_cols := Some cs\<rparr>"
    by (auto simp: fit_def split: sum.splits prod.splits)
  have len: "length ls = length cs" using est by (rule estimate_all_length)
  have nth: "distinct cs \<longrightarrow> (\<forall>i<length cs. \<exists>v. est (col_array h1 Xc (cs ! i)) = Inr (ls ! i, v))"
    using estimate_all_nth[OF est _ check_dataframe_copy[OF chk]] by blast
  have fr: "\<forall>X. X_in = DataFrame X \<longrightarrow> wf_frame h X \<longrightarrow>
               cs = resolve (cols self) X \<and> (\<forall>c. col_array h1 Xc c = col_array h X c)"
  proof (intro allI impI)
    fix X assume X: "X_in = DataFrame X" and w: "wf_frame h X"
    have ok: "cols_ok (cols self) X"
      using chk check_dataframe_frame_fails[of "cols self" X h] by (auto simp: X)
    from chk check_dataframe_frame[OF ok, of h]
    have "df_copy h X = (Xc, h1)" and cs: "cs = resolve (cols self) X"
      by (auto simp: X prod_eq_iff)
    from df_copy_values(2)[OF w this(1)] cs
    show "cs = resolve (cols self) X \<and> (\<forall>c. col_array h1 Xc c = col_array h X c)" by simp
  qed
  from chk len nth fr show ?thesis by (simp add: self')
qed

theorem fit_stores_estimates_in_column_order_witness:
  "fit (\<lambda>arr. Inr (sum_list (vals arr), arr)) [Float64 [1, 2], Float64 [3, 4]]
        \<lparr>cols = Some (ColList [Name ''b'', Name ''a'']), n_jobs = 1, as_df = True,
          kind = BoxCox (1 / 10 ^ 12), lambdas = None, fit_cols = None\<rparr>
        (DataFrame \<lparr>n_rows = 2, columns = [(Name ''a'', 0), (Name ''b'', 1)]\<rparr>)
     = Inr (\<lparr>cols = Some (ColList [Name ''b'', Name ''a'']), n_jobs = 1, as_df = True,
             kind = BoxCox (1 / 10 ^ 12), lambdas = Some [7, 3],
             fit_cols = Some [Name ''b'', Name ''a'']\<rparr>,
            [Float64 [1, 2], Float64 [3, 4], Float64 [1, 2], Float64 [3, 4]])
   \<and> (\<exists>Xc cs h1. check_dataframe [Float64 [1, 2], Float64 [3, 4]]
          (DataFrame \<lparr>n_rows = 2, columns = [(Name ''a'', 0), (Name ''b'', 1)]\<rparr>)
          (Some (ColList [Name ''b'', Name ''a''])) True = Inr (Xc, cs, h1)
        \<and> cs = [Name ''b'', Name ''a''] \<and> distinct cs \<and> length [7, 3 :: real] = length cs
        \<and> col_array h1 Xc (cs ! 0) = Float64 [3, 4] \<and> col_array h1 Xc (cs ! 1) = Float64 [1, 2])"
proof -
  let ?X = "\<lparr>n_rows = 2, columns = [(Name ''a'', 0), (Name ''b'', 1)]\<rparr>"
  have w: "wf_frame [Float64 [1, 2], Float64 [3, 4]] ?X" by (simp add: wf_frame_def df_names_def)
  have v: "col_array [Float64 [1, 2], Float64 [3, 4]] ?X (Name ''a'') = Float64 [1, 2]"
    "col_array [Float64 [1, 2], Float64 [3, 4]] ?X (Name ''b'') = Float64 [3, 4]"
    by (simp_all add: col_array_def)
  from fit_stores_estimates_in_column_order[OF fit_run_two_columns] w v
  show ?thesis using fit_run_two_columns
    by (auto simp: resolve_def cols_list_def)
qed

text \<open>
  C8 as stated fails: fitted with \<^verbatim>\<open>cols = ['a', 'a']\<close> on a table that has a column
  \<open>a\<close>, \<^verbatim>\<open>_fit\<close> succeeds and stores the column list \<open>['a', 'a']\<close>, whose names are
  not unique.
\<close>

theorem fit_keeps_duplicate_column_names:
  "fit (\<lambda>arr. Inr (sum_list (vals arr), arr)) [Float64 [1, 2]]
        \<lparr>cols = Some (ColList [Name ''a'', Name ''a'']), n_jobs = 1, as_df = True,
          kind = BoxCox (1 / 10 ^ 12), lambdas = None, fit_cols = None\<rparr>
        (DataFrame \<lparr>n_rows = 2, columns = [(Name ''a'', 0)]\<rparr>)
     = Inr (\<lparr>cols = Some (ColList [Name ''a'', Name ''a'']), n_jobs = 1, as_df = True,
             kind = BoxCox (1 / 10 ^ 12), lambdas = Some [3, 3],
             fit_cols = Some [Name ''a'', Name ''a'']\<rparr>,
            [Float64 [1, 2], Float64 [1, 2]])
   \<and> \<not> distinct [Name ''a'', Name ''a'']"
  by (simp add: fit_def check_dataframe_def df_names_def count_nonfinite_def np_isfinite_def
      df_copy_def alloc_def validate_multiple_rows_def)

section \<open>Transforming a table\<close>

lemma applied_distinct:
  assumes "distinct (map fst ps)"
  shows "applied k ps c v = (case map_of ps c of None \<Rightarrow> v | Some lam \<Rightarrow> transform_array k lam v)"
  using assms
proof (induction ps arbitrary: v)
  case Nil
  then show ?case by (simp add: applied_def)
next
  case (Cons p ps)
  obtain nm lam where p: "p = (nm, lam)" by (cases p)
  from Cons.prems have d: "distinct (map fst ps)" and n: "nm \<notin> fst ` set ps" by (simp_all add: p)
  have step: "applied k (p # ps) c v = applied k ps c (if nm = c then transform_array k lam v else v)"
    by (simp add: applied_def p)
  show ?case
  proof (cases "nm = c")
    case True
    with n have "map_of ps c = None" by (simp add: map_of_eq_None_iff)
    then show ?thesis unfolding step using Cons.IH[OF d] True by (simp add: p)
  next
    case False
    then show ?thesis unfolding step using Cons.IH[OF d] by (simp add: p)
  qed
qed

lemma applied_other:
  "c \<notin> fst ` set ps \<Longrightarrow> applied k ps c v = v"
proof (induction ps arbitrary: v)
  case Nil
  then show ?case by (simp add: applied_def)
next
  case (Cons p ps)
  then have "applied k ps c v = v" and "fst p \<noteq> c" by auto
  then show ?case by (simp add: applied_def)
qed

text \<open>
  What \<^verbatim>\<open>transform\<close> does for a transformer fitted by \<^verbatim>\<open>_fit\<close> and a well-formed
  table that contains the fit columns, whatever the dtypes: it returns a table with
  the same column names and row count whose columns are arrays allocated by this call;
  every column holds what the pairs of fit column and stored \<open>\<lambda>\<close>, taken in order,
  make of the original column; a column that is no fit column is passed through; and
  every array that was in the store before the call is unchanged. On a float64 column
  \<^verbatim>\<open>_transform_vector\<close> leaves the piecewise values themselves.
\<close>

lemma transform_frame_effect:
  assumes "fit est h0 self0 X0 = Inr (self, h1)"
    and "lambdas self = Some ls" and "fit_cols self = Some fc"
    and "wf_frame h X"
    and "list_all (\<lambda>c. c \<in> set (df_names X)) fc"
  shows "length ls = length fc
         \<and> (\<exists>X' h'. transform h self (DataFrame X)
                 = Inr (if as_df self then Frame X' else Values (df_values h' X'), h')
               \<and> df_names X' = df_names X \<and> n_rows X' = n_rows X
               \<and> (\<forall>c. col_array h' X' c = applied (kind self) (zip fc ls) c (col_array h X c))
               \<and> (distinct fc \<longrightarrow>
                    (\<forall>i<length fc. col_array h' X' (fc ! i)
                        = transform_array (kind self) (ls ! i) (col_array h X (fc ! i))))
               \<and> (\<forall>c. c \<notin> set fc \<longrightarrow> col_array h' X' c = col_array h X c)
               \<and> list_all (\<lambda>ca. length h \<le> snd ca \<and> snd ca < length h') (columns X')
               \<and> take (length h) h' = h)"
proof -
  from fit_result[OF assms(1)] assms(2,3) obtain
    len: "length ls = length fc"
    and c: "case cols self of None \<Rightarrow> True | Some c \<Rightarrow> fc = cols_list c"
    by auto
  have ok: "cols_ok (cols self) X"
    using c assms(5) by (auto simp: cols_ok_def split: option.splits)
  from transform_run[OF assms(2,3,4) ok assms(5)] obtain X' h' where
    t: "transform h self (DataFrame X)
             = Inr (if as_df self then Frame X' else Values (df_values h' X'), h')"
      "owns (length h) h' X'" "df_names X' = df_names X" "n_rows X' = n_rows X"
      "take (length h) h' = h"
      "\<forall>c. col_array h' X' c = applied (kind self) (zip fc ls) c (col_array h X c)"
    by blast
  have fitc: "distinct fc \<longrightarrow> (\<forall>i<length fc. col_array h' X' (fc ! i)
                  = transform_array (kind self) (ls ! i) (col_array h X (fc ! i)))"
  proof (intro allI impI)
    fix i assume d': "distinct fc" and i: "i < length fc"
    have d: "distinct (map fst (zip fc ls))" using len d' by simp
    have "map_of (zip fc ls) (fc ! i) = Some (ls ! i)"
      using len d' i by (intro map_of_zip_nth) simp_all
    then show "col_array h' X' (fc ! i)
                  = transform_array (kind self) (ls ! i) (col_array h X (fc ! i))"
      using t(6) by (simp add: applied_distinct[OF d])
  qed
  have other: "\<forall>c. c \<notin> set fc \<longrightarrow> col_array h' X' c = col_array h X c"
  proof (intro allI impI)
    fix c assume "c \<notin> set fc"
    then have "c \<notin> fst ` set (zip fc ls)" by (auto dest: set_zip_leftD)
    then show "col_array h' X' c = col_array h X c"
      using t(6) by (simp add: applied_other)
  qed
  have fresh: "list_all (\<lambda>ca. length h \<le> snd ca \<and> snd ca < length h') (columns X')"
  proof -
    have "distinct (map fst (columns X'))"
      using assms(4) t(3) by (simp add: wf_frame_def df_names_def)
    then have "map_of (columns X') (fst ca) = Some (snd ca)" if "ca \<in> set (columns X')" for ca
      using that by (simp add: map_of_is_SomeI)
    with t(2) show ?thesis unfolding owns_def list_all_iff by blast
  qed
  from len t(1) t(3) t(4) t(5) t(6) fitc other fresh show ?thesis by blast
qed


lemma transform_array_float:
  "transform_array (YeoJohnson brack) lam (Float64 xs) = Float64 (map (yj_piecewise lam) xs)"
  "transform_array (BoxCox min_value) lam arr = Float64 (map (bc_piecewise min_value lam) (vals arr))"
  by simp_all

lemma cast_int_neg_ln_2: "cast_int (- ln 2) = 0"
proof -
  have "ln (1 + 1) < (1::real)"
    by (rule ln_add_one_self_less_self) simp
  then have "ln 2 < (1::real)" by simp
  moreover have "0 < ln (2::real)" by simp
  ultimately have "\<lceil>- ln (2::real)\<rceil> = 0" by (simp add: ceiling_eq_iff)
  then show ?thesis using \<open>0 < ln (2::real)\<close> by (simp add: cast_int_def)
qed

text \<open>
  C7 fails on the code. A Yeo-Johnson transformer is fitted with \<open>\<lambda> = 2\<close> for the
  columns \<open>b\<close> and \<open>a\<close>, and \<^verbatim>\<open>transform\<close> is handed a table of integer columns
  \<open>a = [-1, 0]\<close>, \<open>b = [5, 6]\<close>, \<open>c = [9, 9]\<close>. The call works on a copy, leaves the three
  arrays of the caller as they were and passes \<open>c\<close> through, but the fit columns of the
  table it returns are \<open>a = [0, 0]\<close> and \<open>b = [17, 24]\<close>: their piecewise transforms
  under \<open>\<lambda> = 2\<close> are \<open>[- ln 2, 0]\<close> and \<open>[35/2, 24]\<close>, and the copy's int64 columns
  have dropped the fractional parts.
\<close>

theorem transform_truncates_int_columns:
  "fit (\<lambda>arr. Inr (2, arr)) [Int64 [- 1, 0], Int64 [5, 6], Int64 [9, 9]]
        \<lparr>cols = Some (ColList [Name ''b'', Name ''a'']), n_jobs = 1, as_df = True,
          kind = YeoJohnson [- 2, 2], lambdas = None, fit_cols = None\<rparr>
        (DataFrame \<lparr>n_rows = 2, columns = [(Name ''a'', 0), (Name ''b'', 1), (Name ''c'', 2)]\<rparr>)
     = Inr (\<lparr>cols = Some (ColList [Name ''b'', Name ''a'']), n_jobs = 1, as_df = True,
             kind = YeoJohnson [- 2, 2], lambdas = Some [2, 2],
             fit_cols = Some [Name ''b'', Name ''a'']\<rparr>,
            [Int64 [- 1, 0], Int64 [5, 6], Int64 [9, 9],
             Int64 [- 1, 0], Int64 [5, 6], Int64 [9, 9]])
   \<and> transform [Int64 [- 1, 0], Int64 [5, 6], Int64 [9, 9]]
        \<lparr>cols = Some (ColList [Name ''b'', Name ''a'']), n_jobs = 1, as_df = True,
          kind = YeoJohnson [- 2, 2], lambdas = Some [2, 2],
          fit_cols = Some [Name ''b'', Name ''a'']\<rparr>
        (DataFrame \<lparr>n_rows = 2, columns = [(Name ''a'', 0), (Name ''b'', 1), (Name ''c'', 2)]\<rparr>)
     = Inr (Frame \<lparr>n_rows = 2, columns = [(Name ''a'', 3), (Name ''b'', 4), (Name ''c'', 5)]\<rparr>,
            [Int64 [- 1, 0], Int64 [5, 6], Int64 [9, 9],
             Int64 [0, 0], Int64 [17, 24], Int64 [9, 9]])
   \<and> map (yj_piecewise 2) [- 1, 0] = [- ln 2, 0]
   \<and> map (yj_piecewise 2) [5, 6] = [35 / 2, 24]
   \<and> - ln 2 \<noteq> (0::real)"
proof -
  have p: "yj_piecewise 2 (- 1) = - ln 2" "yj_piecewise 2 0 = 0"
    "yj_piecewise 2 5 = 35 / 2" "yj_piecewise 2 6 = 24"
    by (simp_all add: yj_piecewise_def ZERO_def)
  have c: "cast_int (35 / 2) = 17" "cast_int 24 = 24" "cast_int 0 = 0"
    by (simp_all add: cast_int_def)
  have f: "fit (\<lambda>arr. Inr (2, arr)) [Int64 [- 1, 0], Int64 [5, 6], Int64 [9, 9]]
        \<lparr>cols = Some (ColList [Name ''b'', Name ''a'']), n_jobs = 1, as_df = True,
          kind = YeoJohnson [- 2, 2], lambdas = None, fit_cols = None\<rparr>
        (DataFrame \<lparr>n_rows = 2, columns = [(Name ''a'', 0), (Name ''b'', 1), (Name ''c'', 2)]\<rparr>)
     = Inr (\<lparr>cols = Some (ColList [Name ''b'', Name ''a'']), n_jobs = 1, as_df = True,
             kind = YeoJohnson [- 2, 2], lambdas = Some [2, 2],
             fit_cols = Some [Name ''b'', Name ''a'']\<rparr>,
            [Int64 [- 1, 0], Int64 [5, 6], Int64 [9, 9],
             Int64 [- 1, 0], Int64 [5, 6], Int64 [9, 9]])"
    by (simp add: fit_def check_dataframe_def df_names_def count_nonfinite_def np_isfinite_def
        df_copy_def alloc_def validate_multiple_rows_def)
  have t: "transform [Int64 [- 1, 0], Int64 [5, 6], Int64 [9, 9]]
        \<lparr>cols = Some (ColList [Name ''b'', Name ''a'']), n_jobs = 1, as_df = True,
          kind = YeoJohnson [- 2, 2], lambdas = Some [2, 2],
          fit_cols = Some [Name ''b'', Name ''a'']\<rparr>
        (DataFrame \<lparr>n_rows = 2, columns = [(Name ''a'', 0), (Name ''b'', 1), (Name ''c'', 2)]\<rparr>)
     = Inr (Frame \<lparr>n_rows = 2, columns = [(Name ''a'', 3), (Name ''b'', 4), (Name ''c'', 5)]\<rparr>,
            [Int64 [- 1, 0], Int64 [5, 6], Int64 [9, 9],
             Int64 [0, 0], Int64 [17, 24], Int64 [9, 9]])"
    by (simp add: transform_def check_dataframe_def df_names_def count_nonfinite_def
        np_isfinite_def df_copy_def alloc_def validate_test_set_columns_def df_set_def
        yj_transform_y_array p c cast_int_neg_ln_2)
  have "- ln 2 \<noteq> (0::real)" by simp
  with f t p show ?thesis by simp
qed

text \<open>
  C10. The row count is checked by \<^verbatim>\<open>_fit\<close> only. For a transformer fitted by
  \<^verbatim>\<open>_fit\<close> and a well-formed table of exactly one row that contains all fit-time
  columns, \<^verbatim>\<open>transform\<close> succeeds and returns a table of one row, although
  \<^verbatim>\<open>validate_multiple_rows\<close> rejects that table and \<^verbatim>\<open>_fit\<close> on it fails.
\<close>

theorem transform_accepts_single_row:
  assumes "fit est h0 self0 X0 = Inr (self, h1)"
    and "wf_frame h X" and "n_rows X = 1"
    and "list_all (\<lambda>c. c \<in> set (df_names X)) (the (fit_cols self))"
  shows "(\<exists>X' h'. transform h self (DataFrame X)
             = Inr (if as_df self then Frame X' else Values (df_values h' X'), h')
           \<and> n_rows X' = 1)
         \<and> validate_multiple_rows X = Inl ValueError
         \<and> fit est' h self' (DataFrame X) = Inl ValueError"
proof -
  from fit_result[OF assms(1)] obtain ls cs where
    s: "self = self0\<lparr>lambdas := Some ls, fit_cols := Some cs\<rparr>"
    and c: "case cols self0 of None \<Rightarrow> True | Some c \<Rightarrow> cs = cols_list c"
    by blast
  have f: "lambdas self = Some ls" "fit_cols self = Some cs" by (simp_all add: s)
  have p: "list_all (\<lambda>c. c \<in> set (df_names X)) cs" using assms(4) f by simp
  have ok: "cols_ok (cols self) X"
    using c p by (auto simp: s cols_ok_def cols_list_def split: option.splits cols_arg.splits)
  from transform_run[OF f assms(2) ok p] obtain X' h' where
    t: "transform h self (DataFrame X)
          = Inr (if as_df self then Frame X' else Values (df_values h' X'), h')"
      "n_rows X' = n_rows X"
    by blast
  have 1: "\<exists>X' h'. transform h self (DataFrame X)
             = Inr (if as_df self then Frame X' else Values (df_values h' X'), h')
           \<and> n_rows X' = 1"
    using t assms(3) by (intro exI[of _ X'] exI[of _ h']) simp
  have 2: "validate_multiple_rows X = Inl ValueError"
    using assms(3) by (simp add: validate_multiple_rows_def)
  have 3: "fit est' h self' (DataFrame X) = Inl ValueError"
  proof (cases "cols_ok (cols self') X")
    case True
    obtain Xc hc where cp: "df_copy h X = (Xc, hc)" by (cases "df_copy h X")
    from df_copy_owns(3)[OF cp] assms(3) have "n_rows Xc = 1" by simp
    then show ?thesis
      using check_dataframe_frame[OF True, of h] cp
      by (simp add: fit_def validate_multiple_rows_def)
  next
    case False
    then show ?thesis by (simp add: fit_def check_dataframe_frame_fails)
  qed
  from 1 2 3 show ?thesis by blast
qed

theorem transform_accepts_single_row_witness:
  "fit (\<lambda>arr. Inr (sum_list (vals arr), arr)) [Float64 [1, 2], Float64 [3, 4]]
        \<lparr>cols = Some (ColList [Name ''b'', Name ''a'']), n_jobs = 1, as_df = True,
          kind = BoxCox (1 / 10 ^ 12), lambdas = None, fit_cols = None\<rparr>
        (DataFrame \<lparr>n_rows = 2, columns = [(Name ''a'', 0), (Name ''b'', 1)]\<rparr>)
     = Inr (\<lparr>cols = Some (ColList [Name ''b'', Name ''a'']), n_jobs = 1, as_df = True,
             kind = BoxCox (1 / 10 ^ 12), lambdas = Some [7, 3],
             fit_cols = Some [Name ''b'', Name ''a'']\<rparr>,
            [Float64 [1, 2], Float64 [3, 4], Float64 [1, 2], Float64 [3, 4]])
   \<and> wf_frame [Float64 [5], Float64 [6]] \<lparr>n_rows = 1, columns = [(Name ''a'', 0), (Name ''b'', 1)]\<rparr>
   \<and> (\<exists>X' h'. transform [Float64 [5], Float64 [6]]
          \<lparr>cols = Some (ColList [Name ''b'', Name ''a'']), n_jobs = 1, as_df = True,
             kind = BoxCox (1 / 10 ^ 12), lambdas = Some [7, 3],
             fit_cols = Some [Name ''b'', Name ''a'']\<rparr>
          (DataFrame \<lparr>n_rows = 1, columns = [(Name ''a'', 0), (Name ''b'', 1)]\<rparr>)
        = Inr (Frame X', h') \<and> n_rows X' = 1)
   \<and> fit (\<lambda>arr. Inr (sum_list (vals arr), arr)) [Float64 [5], Float64 [6]]
          \<lparr>cols = Some (ColList [Name ''b'', Name ''a'']), n_jobs = 1, as_df = True,
             kind = BoxCox (1 / 10 ^ 12), lambdas = None, fit_cols = None\<rparr>
          (DataFrame \<lparr>n_rows = 1, columns = [(Name ''a'', 0), (Name ''b'', 1)]\<rparr>)
        = Inl ValueError"
proof -
  let ?X = "\<lparr>n_rows = 1, columns = [(Name ''a'', 0), (Name ''b'', 1)]\<rparr>"
  let ?self = "\<lparr>cols = Some (ColList [Name ''b'', Name ''a'']), n_jobs = 1, as_df = True,
             kind = BoxCox (1 / 10 ^ 12), lambdas = Some [7, 3 :: real],
             fit_cols = Some [Name ''b'', Name ''a'']\<rparr>"
  have w: "wf_frame [Float64 [5], Float64 [6]] ?X" by (simp add: wf_frame_def df_names_def)
  have n: "n_rows ?X = 1" by simp
  have p: "list_all (\<lambda>c. c \<in> set (df_names ?X)) (the (fit_cols ?self))"
    by (simp add: df_names_def)
  from transform_accepts_single_row[OF fit_run_two_columns w n p] w
  show ?thesis using fit_run_two_columns by simp
qed


end
